theory Spec2Isabelle
  imports Main "HOL-Library.Multiset" "HOL-Library.Word"
begin

section \<open>The GitHub component of a project: data model\<close>

text \<open>
  The development follows \<^verbatim>\<open>src/github/github.ts\<close>. Objects live in a store and are
  named by their address, so that identity, the aliasing between the project's component
  collection and the fields of the \<^verbatim>\<open>GitHub\<close> object, and the in-place
  \<^verbatim>\<open>Array.prototype.sort\<close> are all visible in the model.
\<close>

type_synonym ref = nat
  \<comment> \<open>the address of an object in the store\<close>

type_synonym aref = nat
  \<comment> \<open>the address of a JavaScript array in the store\<close>

type_synonym jsstring = "16 word list"
  \<comment> \<open>a JavaScript string: a sequence of UTF-16 code units\<close>

definition str :: "string \<Rightarrow> jsstring" where
  "str cs = map of_char cs"

text \<open>
  Modelled from the spec: the option interfaces of the children (\<^verbatim>\<open>MergifyOptions\<close>,
  \<^verbatim>\<open>PullRequestLintOptions\<close>, \<^verbatim>\<open>AutoApproveOptions\<close>, \<^verbatim>\<open>StaleOptions\<close>,
  \<^verbatim>\<open>DependabotOptions\<close>, \<^verbatim>\<open>AutoMergeOptions\<close>) are declared in files outside this
  slice. The orchestrator only hands them on, so an options object is an opaque list of
  properties; \<open>Obj []\<close> is the empty object \<^verbatim>\<open>{}\<close>.
\<close>

datatype options_object = Obj "(string \<times> string) list"

text \<open>\<^verbatim>\<open>GitHubOptions\<close>: every property is optional; \<open>None\<close> is \<^verbatim>\<open>undefined\<close>.\<close>

record GitHubOptions =
  options_mergify :: "bool option"
  options_mergifyOptions :: "options_object option"
  options_workflows :: "bool option"
  options_pullRequestLint :: "bool option"
  options_pullRequestLintOptions :: "options_object option"
  options_projenTokenSecret :: "jsstring option"
  options_autoApproveOptions :: "options_object option"
  options_autoMergeOptions :: "options_object option"
  options_staleOptions :: "options_object option"
  options_stale :: "bool option"

text \<open>The default argument \<^verbatim>\<open>options: GitHubOptions = {}\<close>.\<close>

definition no_options :: GitHubOptions where
  "no_options = \<lparr> options_mergify = None, options_mergifyOptions = None,
     options_workflows = None, options_pullRequestLint = None,
     options_pullRequestLintOptions = None, options_projenTokenSecret = None,
     options_autoApproveOptions = None, options_autoMergeOptions = None,
     options_staleOptions = None, options_stale = None \<rparr>"

text \<open>The fields of a \<^verbatim>\<open>GitHub\<close> object.\<close>

record github =
  mergify :: "ref option"
  autoApprove :: "ref option"
  workflowsEnabled :: bool
  projenTokenSecret :: jsstring

text \<open>
  The runtime classes of the components. Every child keeps the \<^verbatim>\<open>GitHub\<close> object it
  was constructed with and the arguments it was given. \<open>OtherComponent\<close> stands for the
  project's components of any other class.
\<close>

datatype obj =
    GitHub github
  | Mergify ref "options_object option"
  | PullRequestLint ref "options_object option"
  | AutoApprove ref "options_object option"
  | Stale ref "options_object option"
  | GithubWorkflow ref jsstring
  | PullRequestTemplate ref "jsstring list"
  | Dependabot ref "options_object option"
  | OtherComponent

datatype kind =
    KGitHub | KMergify | KPullRequestLint | KAutoApprove | KStale
  | KGithubWorkflow | KPullRequestTemplate | KDependabot | KOther

fun kind_of :: "obj \<Rightarrow> kind" where
  "kind_of (GitHub g) = KGitHub"
| "kind_of (Mergify g opts) = KMergify"
| "kind_of (PullRequestLint g opts) = KPullRequestLint"
| "kind_of (AutoApprove g opts) = KAutoApprove"
| "kind_of (Stale g opts) = KStale"
| "kind_of (GithubWorkflow g n) = KGithubWorkflow"
| "kind_of (PullRequestTemplate g ls) = KPullRequestTemplate"
| "kind_of (Dependabot g opts) = KDependabot"
| "kind_of OtherComponent = KOther"

text \<open>
  The state: the object store, the array store, and the address of the array that is the
  project's component collection. An address is an index into its store; allocation
  appends.
\<close>

record state =
  heap :: "obj list"
  arrays :: "ref list list"
  project :: aref

definition obj_at :: "state \<Rightarrow> ref \<Rightarrow> obj option" where
  "obj_at s r = (if r < length (heap s) then Some (heap s ! r) else None)"

definition array_at :: "state \<Rightarrow> aref \<Rightarrow> ref list" where
  "array_at s a = (if a < length (arrays s) then arrays s ! a else [])"

text \<open>
  Modelled from the spec: the getter \<^verbatim>\<open>components\<close> of \<^verbatim>\<open>Project\<close>, in
  \<^verbatim>\<open>../project\<close>, outside this slice: ``an ordered, insertion-order collection of
  Components''. The getter is taken to give the collection's array itself, the one at
  address \<open>project s\<close>, and \<open>components s\<close> is what that array holds. (Were the getter
  to give a copy, the queries below would be still further from the collection.)
\<close>

definition components :: "state \<Rightarrow> ref list" where
  "components s = array_at s (project s)"

definition kind_at :: "state \<Rightarrow> ref \<Rightarrow> kind option" where
  "kind_at s r = map_option kind_of (obj_at s r)"

text \<open>
  References are never dangling: the collection is an allocated array and each of its
  entries is an allocated object.
\<close>

definition well_formed :: "state \<Rightarrow> bool" where
  "well_formed s \<longleftrightarrow> project s < length (arrays s) \<and> list_all (\<lambda>r. r < length (heap s)) (components s)"

text \<open>A new project: its collection is allocated and empty.\<close>

definition new_project :: state where
  "new_project = \<lparr> heap = [], arrays = [[]], project = 0 \<rparr>"

section \<open>The language runtime\<close>

text \<open>\<^verbatim>\<open>a ?? b\<close>: the left operand unless it is \<^verbatim>\<open>undefined\<close>.\<close>

fun nullish :: "'a option \<Rightarrow> 'a \<Rightarrow> 'a" where
  "nullish None d = d"
| "nullish (Some v) d = v"

text \<open>
  The truth value \<^verbatim>\<open>if (x)\<close> takes of an optional object: \<^verbatim>\<open>undefined\<close> is falsy
  and every object, the empty one included, is truthy.
\<close>

fun truthy :: "options_object option \<Rightarrow> bool" where
  "truthy None = False"
| "truthy (Some ob) = True"

text \<open>
  \<^verbatim>\<open>Array.prototype.sort(cmp)\<close> is a stable sort by the comparison function, which
  returns a negative number, zero or a positive number. It is run here as an insertion
  sort that keeps the order of the elements the comparison ties.
\<close>

fun insert_by :: "('a \<Rightarrow> 'a \<Rightarrow> int) \<Rightarrow> 'a \<Rightarrow> 'a list \<Rightarrow> 'a list" where
  "insert_by cmp x [] = [x]"
| "insert_by cmp x (y # ys) = (if cmp x y \<le> 0 then x # y # ys else y # insert_by cmp x ys)"

fun js_sort :: "('a \<Rightarrow> 'a \<Rightarrow> int) \<Rightarrow> 'a list \<Rightarrow> 'a list" where
  "js_sort cmp [] = []"
| "js_sort cmp (x # xs) = insert_by cmp x (js_sort cmp xs)"

text \<open>
  The comparison \<^verbatim>\<open>String.prototype.localeCompare\<close> belongs to the runtime and depends
  on its locale, so the operations take it as a parameter. What the language requires of
  it is that it is a consistent comparison: the sign flips with the arguments, and
  ``not after'' is transitive.
\<close>

definition consistent_compare :: "('a \<Rightarrow> 'a \<Rightarrow> int) \<Rightarrow> bool" where
  "consistent_compare cmp \<longleftrightarrow>
     (\<forall>a b. (cmp a b < 0) = (0 < cmp b a)) \<and>
     (\<forall>a b c. cmp a b \<le> 0 \<longrightarrow> cmp b c \<le> 0 \<longrightarrow> cmp a c \<le> 0)"

text \<open>The array methods, as operations on the array store.\<close>

definition Array_push :: "aref \<Rightarrow> ref \<Rightarrow> state \<Rightarrow> state" where
  "Array_push a r s = s\<lparr>arrays := (arrays s)[a := array_at s a @ [r]]\<rparr>"

definition Array_filter :: "(ref \<Rightarrow> bool) \<Rightarrow> aref \<Rightarrow> state \<Rightarrow> aref \<times> state" where
  \<comment> \<open>allocates the array it returns\<close>
  "Array_filter p a s = (length (arrays s), s\<lparr>arrays := arrays s @ [filter p (array_at s a)]\<rparr>)"

definition Array_sort :: "(ref \<Rightarrow> ref \<Rightarrow> int) \<Rightarrow> aref \<Rightarrow> state \<Rightarrow> aref \<times> state" where
  \<comment> \<open>sorts the array in place and returns it\<close>
  "Array_sort cmp a s = (a, s\<lparr>arrays := (arrays s)[a := js_sort cmp (array_at s a)]\<rparr>)"

definition Array_find :: "(ref \<Rightarrow> bool) \<Rightarrow> aref \<Rightarrow> state \<Rightarrow> ref option \<times> state" where
  \<comment> \<open>the first element that satisfies the predicate, or \<^verbatim>\<open>undefined\<close>\<close>
  "Array_find p a s = (find p (array_at s a), s)"

section \<open>The component substrate and the children\<close>

text \<open>
  Modelled from the spec: the constructor of the base class \<^verbatim>\<open>Component\<close>, in
  \<^verbatim>\<open>../component\<close>, outside this slice. The spec: every node ``self-registers into
  the project tree upon construction'', and registration ``appends to project-scoped
  ordered collection; no uniqueness enforcement''. The constructor allocates the object
  and appends its address to the collection.
\<close>

definition Component_new :: "obj \<Rightarrow> state \<Rightarrow> ref \<times> state" where
  "Component_new ob s =
     (let this = length (heap s)
      in (this, Array_push (project s) this (s\<lparr>heap := heap s @ [ob]\<rparr>)))"

text \<open>
  The constructors of the seven kinds of children are in files outside this slice. Their
  rendering is out of the spec's scope: ``only their construction contracts (what options
  they accept, what object identity they register into the tree) matter''. Each one is
  given the \<^verbatim>\<open>GitHub\<close> object and its own arguments.
\<close>

text \<open>
  Modelled from the spec: the constructor of \<^verbatim>\<open>Mergify\<close>, in \<^verbatim>\<open>./mergify\<close>. It constructs
  one component of its class, which registers itself in the project.
\<close>

definition Mergify_new :: "ref \<Rightarrow> options_object option \<Rightarrow> state \<Rightarrow> ref \<times> state" where
  "Mergify_new github options = Component_new (Mergify github options)"

text \<open>
  Modelled from the spec: the constructor of \<^verbatim>\<open>PullRequestLint\<close>, in \<^verbatim>\<open>./pull-request-lint\<close>. It constructs
  one component of its class, which registers itself in the project.
\<close>

definition PullRequestLint_new :: "ref \<Rightarrow> options_object option \<Rightarrow> state \<Rightarrow> ref \<times> state" where
  "PullRequestLint_new github options = Component_new (PullRequestLint github options)"

text \<open>
  Modelled from the spec: the constructor of \<^verbatim>\<open>AutoApprove\<close>, in \<^verbatim>\<open>./auto-approve\<close>. It constructs
  one component of its class, which registers itself in the project.
\<close>

definition AutoApprove_new :: "ref \<Rightarrow> options_object option \<Rightarrow> state \<Rightarrow> ref \<times> state" where
  "AutoApprove_new github options = Component_new (AutoApprove github options)"

text \<open>
  Modelled from the spec: the constructor of \<^verbatim>\<open>Stale\<close>, in \<^verbatim>\<open>./stale\<close>. It constructs
  one component of its class, which registers itself in the project.
\<close>

definition Stale_new :: "ref \<Rightarrow> options_object option \<Rightarrow> state \<Rightarrow> ref \<times> state" where
  "Stale_new github options = Component_new (Stale github options)"

text \<open>
  Modelled from the spec: the constructor of \<^verbatim>\<open>GithubWorkflow\<close>, in \<^verbatim>\<open>./workflows\<close>. It constructs
  one component of its class, which registers itself in the project. The workflow keeps its \<^verbatim>\<open>name\<close>.
\<close>

definition GithubWorkflow_new :: "ref \<Rightarrow> jsstring \<Rightarrow> state \<Rightarrow> ref \<times> state" where
  "GithubWorkflow_new github name = Component_new (GithubWorkflow github name)"

text \<open>
  Modelled from the spec: the constructor of \<^verbatim>\<open>PullRequestTemplate\<close>, in \<^verbatim>\<open>./pr-template\<close>. It constructs
  one component of its class, which registers itself in the project.
\<close>

definition PullRequestTemplate_new :: "ref \<Rightarrow> jsstring list \<Rightarrow> state \<Rightarrow> ref \<times> state" where
  "PullRequestTemplate_new github lines = Component_new (PullRequestTemplate github lines)"

text \<open>
  Modelled from the spec: the constructor of \<^verbatim>\<open>Dependabot\<close>, in \<^verbatim>\<open>./dependabot\<close>. It constructs
  one component of its class, which registers itself in the project.
\<close>

definition Dependabot_new :: "ref \<Rightarrow> options_object option \<Rightarrow> state \<Rightarrow> ref \<times> state" where
  "Dependabot_new github options = Component_new (Dependabot github options)"

section \<open>The class GitHub\<close>

text \<open>The runtime type tests \<^verbatim>\<open>c instanceof GitHub\<close> and \<^verbatim>\<open>c instanceof GithubWorkflow\<close>.\<close>

definition isGitHub :: "state \<Rightarrow> ref \<Rightarrow> bool" where
  "isGitHub s c = (kind_at s c = Some KGitHub)"

definition isWorkflow :: "state \<Rightarrow> ref \<Rightarrow> bool" where
  "isWorkflow s c = (kind_at s c = Some KGithubWorkflow)"

text \<open>
  \<^verbatim>\<open>w.name\<close>, the name a workflow was constructed with. It is read only from references
  that passed \<^verbatim>\<open>isWorkflow\<close>; the default of the last case is never reached from the
  operations below.
\<close>

definition workflow_name :: "state \<Rightarrow> ref \<Rightarrow> jsstring" where
  "workflow_name s w = (case obj_at s w of Some (GithubWorkflow g n) \<Rightarrow> n | _ \<Rightarrow> [])"

text \<open>An assignment \<^verbatim>\<open>this.f = v\<close> to a field of the \<^verbatim>\<open>GitHub\<close> object at \<open>this\<close>.\<close>

definition assign :: "ref \<Rightarrow> (github \<Rightarrow> github) \<Rightarrow> state \<Rightarrow> state" where
  "assign this upd s =
     s\<lparr>heap := (heap s)[this := (case heap s ! this of GitHub g \<Rightarrow> GitHub (upd g) | ob \<Rightarrow> ob)]\<rparr>"

text \<open>\<^verbatim>\<open>GitHub.of(project)\<close>, lines 92 to 95.\<close>

definition GitHub_of :: "state \<Rightarrow> ref option \<times> state" where
  "GitHub_of s = Array_find (isGitHub s) (project s) s"

text \<open>
  The constructor, lines 119 to 140. \<^verbatim>\<open>super(project)\<close> registers the object, and the
  two assignments that follow it initialise \<^verbatim>\<open>workflowsEnabled\<close> and
  \<^verbatim>\<open>projenTokenSecret\<close> before anything else runs, so the object is allocated with these
  two fields set and the other two \<^verbatim>\<open>undefined\<close>.
\<close>

definition GitHub_new :: "GitHubOptions \<Rightarrow> state \<Rightarrow> ref \<times> state" where
  "GitHub_new options s0 =
     (let (this, s1) = Component_new (GitHub \<lparr> mergify = None, autoApprove = None,
             workflowsEnabled = nullish (options_workflows options) True,
             projenTokenSecret = nullish (options_projenTokenSecret options)
                                   (str ''PROJEN_GITHUB_TOKEN'') \<rparr>) s0;
          s2 = (if nullish (options_mergify options) True
                then (let (m, s) = Mergify_new this (options_mergifyOptions options) s1
                      in assign this (\<lambda>g. g\<lparr>mergify := Some m\<rparr>) s)
                else s1);
          s3 = (if nullish (options_pullRequestLint options) True
                then snd (PullRequestLint_new this (options_pullRequestLintOptions options) s2)
                else s2);
          s4 = (if truthy (options_autoApproveOptions options)
                then (let (a, s) = AutoApprove_new this (options_autoApproveOptions options) s3
                      in assign this (\<lambda>g. g\<lparr>autoApprove := Some a\<rparr>) s)
                else s3);
          s5 = (if nullish (options_stale options) True
                then snd (Stale_new this (options_staleOptions options) s4)
                else s4)
      in (this, s5))"

text \<open>
  The getter \<^verbatim>\<open>workflows\<close>, lines 145 to 151: it filters the collection into a new
  array, sorts that array in place and returns it.
\<close>

definition workflows :: "(jsstring \<Rightarrow> jsstring \<Rightarrow> int) \<Rightarrow> state \<Rightarrow> aref \<times> state" where
  "workflows localeCompare s0 =
     (let (a, s1) = Array_filter (isWorkflow s0) (project s0) s0
      in Array_sort (\<lambda>w1 w2. localeCompare (workflow_name s1 w1) (workflow_name s1 w2)) a s1)"

text \<open>\<^verbatim>\<open>addWorkflow\<close>, \<^verbatim>\<open>addPullRequestTemplate\<close> and \<^verbatim>\<open>addDependabot\<close>, lines 158 to 169.\<close>

definition addWorkflow :: "ref \<Rightarrow> jsstring \<Rightarrow> state \<Rightarrow> ref \<times> state" where
  "addWorkflow this name s = GithubWorkflow_new this name s"

definition addPullRequestTemplate :: "ref \<Rightarrow> jsstring list \<Rightarrow> state \<Rightarrow> ref \<times> state" where
  "addPullRequestTemplate this content s = PullRequestTemplate_new this content s"

definition addDependabot :: "ref \<Rightarrow> options_object option \<Rightarrow> state \<Rightarrow> ref \<times> state" where
  "addDependabot this options s = Dependabot_new this options s"

text \<open>\<^verbatim>\<open>tryFindWorkflow\<close>, lines 175 to 177; \<^verbatim>\<open>===\<close> on strings is equality of the code units.\<close>

definition tryFindWorkflow ::
  "(jsstring \<Rightarrow> jsstring \<Rightarrow> int) \<Rightarrow> jsstring \<Rightarrow> state \<Rightarrow> ref option \<times> state" where
  "tryFindWorkflow localeCompare name s0 =
     (let (a, s1) = workflows localeCompare s0
      in Array_find (\<lambda>w. workflow_name s1 w = name) a s1)"

text \<open>The contents of the array that \<open>workflows\<close> returns, and the names in it.\<close>

definition workflows_list :: "(jsstring \<Rightarrow> jsstring \<Rightarrow> int) \<Rightarrow> state \<Rightarrow> ref list" where
  "workflows_list localeCompare s = (let (a, s1) = workflows localeCompare s in array_at s1 a)"

definition workflow_names :: "(jsstring \<Rightarrow> jsstring \<Rightarrow> int) \<Rightarrow> state \<Rightarrow> jsstring list" where
  "workflow_names localeCompare s =
     (let (a, s1) = workflows localeCompare s in map (workflow_name s1) (array_at s1 a))"

section \<open>Observations used in the statements\<close>

text \<open>The fields of the \<^verbatim>\<open>GitHub\<close> object at an address, if there is one.\<close>

definition github_at :: "state \<Rightarrow> ref \<Rightarrow> github option" where
  "github_at s r = (case obj_at s r of Some (GitHub g) \<Rightarrow> Some g | _ \<Rightarrow> None)"

text \<open>
  How many objects of a class have been constructed, and how many are registered in the
  project's collection.
\<close>

definition constructed :: "kind \<Rightarrow> state \<Rightarrow> nat" where
  "constructed k s = length (filter (\<lambda>ob. kind_of ob = k) (heap s))"

definition registered :: "kind \<Rightarrow> state \<Rightarrow> nat" where
  "registered k s = length (filter (\<lambda>r. kind_at s r = Some k) (components s))"

text \<open>The children that the constructor builds for given options, in construction order.\<close>

definition children :: "GitHubOptions \<Rightarrow> ref \<Rightarrow> obj list" where
  "children options this =
     (if nullish (options_mergify options) True
      then [Mergify this (options_mergifyOptions options)] else []) @
     (if nullish (options_pullRequestLint options) True
      then [PullRequestLint this (options_pullRequestLintOptions options)] else []) @
     (if truthy (options_autoApproveOptions options)
      then [AutoApprove this (options_autoApproveOptions options)] else []) @
     (if nullish (options_stale options) True
      then [Stale this (options_staleOptions options)] else [])"

text \<open>
  Calls of the public interface, and a client that makes a sequence of them. The last
  three are the queries.
\<close>

datatype call =
    New GitHubOptions
  | AddWorkflow ref jsstring
  | AddPullRequestTemplate ref "jsstring list"
  | AddDependabot ref "options_object option"
  | Workflows
  | TryFindWorkflow jsstring
  | Of

fun is_query :: "call \<Rightarrow> bool" where
  "is_query Workflows = True"
| "is_query (TryFindWorkflow name) = True"
| "is_query Of = True"
| "is_query c = False"

fun do_call :: "(jsstring \<Rightarrow> jsstring \<Rightarrow> int) \<Rightarrow> call \<Rightarrow> state \<Rightarrow> state" where
  "do_call lc (New options) s = snd (GitHub_new options s)"
| "do_call lc (AddWorkflow this name) s = snd (addWorkflow this name s)"
| "do_call lc (AddPullRequestTemplate this content) s = snd (addPullRequestTemplate this content s)"
| "do_call lc (AddDependabot this options) s = snd (addDependabot this options s)"
| "do_call lc Workflows s = snd (workflows lc s)"
| "do_call lc (TryFindWorkflow name) s = snd (tryFindWorkflow lc name s)"
| "do_call lc Of s = snd (GitHub_of s)"

fun run :: "(jsstring \<Rightarrow> jsstring \<Rightarrow> int) \<Rightarrow> call list \<Rightarrow> state \<Rightarrow> state" where
  "run lc [] s = s"
| "run lc (c # cs) s = run lc cs (do_call lc c s)"

text \<open>
  Two comparisons of strings for concrete runs. \<open>compare_units\<close> orders strings by their
  code units; on lower-case ASCII letters this is the order of every locale.
  \<open>canonical_compare\<close> first composes the letter e (U+0065) followed by the combining
  acute accent (U+0301) into the precomposed letter (U+00E9): ECMA-402 requires
  \<^verbatim>\<open>localeCompare\<close> to return 0 on canonically equivalent strings, and these two
  spellings are canonically equivalent.
\<close>

fun compare_units :: "jsstring \<Rightarrow> jsstring \<Rightarrow> int" where
  "compare_units [] [] = 0"
| "compare_units [] (y # ys) = - 1"
| "compare_units (x # xs) [] = 1"
| "compare_units (x # xs) (y # ys) =
     (if x < y then - 1 else if y < x then 1 else compare_units xs ys)"

fun compose_units :: "jsstring \<Rightarrow> jsstring" where
  "compose_units (x # y # r) =
     (if x = 0x65 \<and> y = 0x301 then 0xE9 # compose_units r else x # compose_units (y # r))"
| "compose_units r = r"

definition canonical_compare :: "jsstring \<Rightarrow> jsstring \<Rightarrow> int" where
  "canonical_compare a b = compare_units (compose_units a) (compose_units b)"

text \<open>
  Three concrete projects for the runs below: a new project on which \<^verbatim>\<open>GitHub\<close> was
  constructed with the default options; that project after two workflows named
  \<^verbatim>\<open>build\<close> were added; and that project after three workflows were added whose names
  are the letter e with acute, precomposed, then decomposed, then precomposed again.
\<close>

definition default_project :: state where
  "default_project = snd (GitHub_new no_options new_project)"

definition two_builds :: state where
  "two_builds =
     snd (addWorkflow 0 (str ''build'') (snd (addWorkflow 0 (str ''build'') default_project)))"


section \<open>Facts about the model\<close>

subsection \<open>Sorting by a comparison\<close>

lemma mset_insert_by: "mset (insert_by cmp x xs) = add_mset x (mset xs)"
  by (induction xs) auto

lemma mset_js_sort: "mset (js_sort cmp xs) = mset xs"
  by (induction xs) (auto simp: mset_insert_by)

lemma set_insert_by: "set (insert_by cmp x xs) = insert x (set xs)"
  by (induction xs) auto

lemma set_js_sort: "set (js_sort cmp xs) = set xs"
  by (induction xs) (auto simp: set_insert_by)

lemma consistent_flip: "consistent_compare cmp \<Longrightarrow> \<not> cmp x y \<le> 0 \<Longrightarrow> cmp y x \<le> 0"
  unfolding consistent_compare_def by (metis not_le order_less_imp_le)

lemma consistent_trans:
  "consistent_compare cmp \<Longrightarrow> cmp a b \<le> 0 \<Longrightarrow> cmp b c \<le> 0 \<Longrightarrow> cmp a c \<le> 0"
  unfolding consistent_compare_def by blast

lemma sorted_insert_by:
  assumes "consistent_compare cmp" and "sorted_wrt (\<lambda>a b. cmp a b \<le> 0) xs"
  shows "sorted_wrt (\<lambda>a b. cmp a b \<le> 0) (insert_by cmp x xs)"
  using assms(2)
proof (induction xs)
  case Nil
  then show ?case by simp
next
  case (Cons y ys)
  show ?case
  proof (cases "cmp x y \<le> 0")
    case True
    have "\<forall>z\<in>set ys. cmp x z \<le> 0"
      using Cons.prems True consistent_trans [OF assms(1)] by auto
    with True Cons.prems show ?thesis by simp
  next
    case False
    then have "cmp y x \<le> 0" by (rule consistent_flip [OF assms(1)])
    with False Cons show ?thesis by (auto simp: set_insert_by)
  qed
qed

lemma sorted_js_sort:
  "consistent_compare cmp \<Longrightarrow> sorted_wrt (\<lambda>a b. cmp a b \<le> 0) (js_sort cmp xs)"
  by (induction xs) (simp_all add: sorted_insert_by)

lemma map_insert_by:
  "map f (insert_by (\<lambda>a b. cmp (f a) (f b)) x xs) = insert_by cmp (f x) (map f xs)"
  by (induction xs) auto

lemma map_js_sort:
  "map f (js_sort (\<lambda>a b. cmp (f a) (f b)) xs) = js_sort cmp (map f xs)"
  by (induction xs) (simp_all add: map_insert_by)

lemma consistent_compare_on:
  "consistent_compare cmp \<Longrightarrow> consistent_compare (\<lambda>a b. cmp (f a) (f b))"
  unfolding consistent_compare_def by blast

subsection \<open>The two concrete comparisons\<close>

lemma compare_units_flip: "(compare_units a b < 0) = (0 < compare_units b a)"
  by (induction a b rule: compare_units.induct) auto

lemma compare_units_trans:
  "compare_units a b \<le> 0 \<Longrightarrow> compare_units b c \<le> 0 \<Longrightarrow> compare_units a c \<le> 0"
proof (induction a b arbitrary: c rule: compare_units.induct)
  case 1
  then show ?case by simp
next
  case (2 y ys)
  then show ?case by (cases c) auto
next
  case (3 x xs)
  then show ?case by simp
next
  case (4 x xs y ys)
  then show ?case by (cases c) (auto split: if_splits)
qed

lemma consistent_compare_units: "consistent_compare compare_units"
  unfolding consistent_compare_def using compare_units_flip compare_units_trans by blast


lemma consistent_canonical_compare: "consistent_compare canonical_compare"
  using consistent_compare_on [OF consistent_compare_units, of compose_units]
  by (simp add: canonical_compare_def [abs_def])

subsection \<open>Construction of a component\<close>

lemma fst_Component_new: "fst (Component_new ob s) = length (heap s)"
  by (simp add: Component_new_def Let_def)

lemma heap_Component_new: "heap (snd (Component_new ob s)) = heap s @ [ob]"
  by (simp add: Component_new_def Let_def Array_push_def)

lemma project_Component_new: "project (snd (Component_new ob s)) = project s"
  by (simp add: Component_new_def Let_def Array_push_def)

lemma arrays_Component_new:
  "arrays (snd (Component_new ob s)) =
     (arrays s)[project s := array_at s (project s) @ [length (heap s)]]"
  by (simp add: Component_new_def Let_def Array_push_def array_at_def)

lemma components_Component_new:
  "project s < length (arrays s) \<Longrightarrow>
     components (snd (Component_new ob s)) = components s @ [length (heap s)]"
  by (simp add: components_def array_at_def arrays_Component_new project_Component_new)

lemma well_formed_Component_new: "well_formed s \<Longrightarrow> well_formed (snd (Component_new ob s))"
  unfolding well_formed_def
  by (auto simp: components_Component_new heap_Component_new arrays_Component_new
      project_Component_new list_all_iff)

lemma obj_at_Component_new:
  "obj_at (snd (Component_new ob s)) r =
     (if r = length (heap s) then Some ob else obj_at s r)"
  by (auto simp: obj_at_def heap_Component_new nth_append)

lemma kind_at_Component_new:
  "kind_at (snd (Component_new ob s)) r =
     (if r = length (heap s) then Some (kind_of ob) else kind_at s r)"
  by (simp add: kind_at_def obj_at_Component_new)

lemma component_allocated: "well_formed s \<Longrightarrow> r \<in> set (components s) \<Longrightarrow> r < length (heap s)"
  by (simp add: well_formed_def list_all_iff)

subsection \<open>Assignment to a field\<close>

lemma heap_assign:
  "heap (assign this upd s) =
     (heap s)[this := (case heap s ! this of GitHub g \<Rightarrow> GitHub (upd g) | ob \<Rightarrow> ob)]"
  by (simp add: assign_def)

lemma arrays_assign: "arrays (assign this upd s) = arrays s"
  by (simp add: assign_def)

lemma project_assign: "project (assign this upd s) = project s"
  by (simp add: assign_def)

lemma components_assign: "components (assign this upd s) = components s"
  by (simp add: components_def array_at_def arrays_assign project_assign)

lemma kind_at_assign: "kind_at (assign this upd s) r = kind_at s r"
  by (cases "r = this") (auto simp: kind_at_def obj_at_def heap_assign split: obj.splits)

lemma well_formed_assign: "well_formed s \<Longrightarrow> well_formed (assign this upd s)"
  by (simp add: well_formed_def components_assign arrays_assign project_assign heap_assign)

subsection \<open>The workflow registry\<close>

lemma workflow_name_heap: "heap s' = heap s \<Longrightarrow> workflow_name s' = workflow_name s"
  by (rule ext) (simp add: workflow_name_def obj_at_def)

lemma workflows_eq:
  "workflows lc s =
     (length (arrays s),
      s\<lparr>arrays := arrays s @
         [js_sort (\<lambda>w1 w2. lc (workflow_name s w1) (workflow_name s w2))
            (filter (isWorkflow s) (components s))]\<rparr>)"
proof -
  have "workflow_name (s\<lparr>arrays := xs\<rparr>) = workflow_name s" for xs
    by (rule workflow_name_heap) simp
  then show ?thesis
    by (simp add: workflows_def Array_filter_def Array_sort_def array_at_def components_def)
qed

lemma workflows_list_eq:
  "workflows_list lc s =
     js_sort (\<lambda>w1 w2. lc (workflow_name s w1) (workflow_name s w2))
       (filter (isWorkflow s) (components s))"
  by (simp add: workflows_list_def workflows_eq array_at_def)

lemma workflow_names_eq:
  "workflow_names lc s = js_sort lc (map (workflow_name s) (filter (isWorkflow s) (components s)))"
proof -
  have "workflow_name (s\<lparr>arrays := xs\<rparr>) = workflow_name s" for xs
    by (rule workflow_name_heap) simp
  then show ?thesis
    by (simp add: workflow_names_def workflows_eq array_at_def map_js_sort)
qed

lemma workflow_names_list: "workflow_names lc s = map (workflow_name s) (workflows_list lc s)"
  by (simp add: workflow_names_eq workflows_list_eq map_js_sort)

lemma tryFindWorkflow_eq:
  "tryFindWorkflow lc name s =
     (find (\<lambda>w. workflow_name s w = name) (workflows_list lc s), snd (workflows lc s))"
proof -
  have "workflow_name (s\<lparr>arrays := xs\<rparr>) = workflow_name s" for xs
    by (rule workflow_name_heap) simp
  then show ?thesis
    by (simp add: tryFindWorkflow_def workflows_list_eq workflows_eq Array_find_def array_at_def)
qed

lemma GitHub_of_eq: "GitHub_of s = (find (isGitHub s) (components s), s)"
  by (simp add: GitHub_of_def Array_find_def components_def)

lemma components_workflows:
  "project s < length (arrays s) \<Longrightarrow> components (snd (workflows lc s)) = components s"
  by (simp add: workflows_eq components_def array_at_def nth_append)

lemma well_formed_workflows: "well_formed s \<Longrightarrow> well_formed (snd (workflows lc s))"
  unfolding well_formed_def
  by (auto simp: workflows_eq components_def array_at_def nth_append)

subsection \<open>The constructor\<close>

lemmas child_defs = Mergify_new_def PullRequestLint_new_def AutoApprove_new_def Stale_new_def

lemmas new_simps = fst_Component_new heap_Component_new project_Component_new
  arrays_Component_new heap_assign arrays_assign project_assign

lemma fst_GitHub_new: "fst (GitHub_new options s) = length (heap s)"
  by (simp add: GitHub_new_def Let_def split_def fst_Component_new)

lemma project_GitHub_new: "project (snd (GitHub_new options s)) = project s"
  by (simp add: GitHub_new_def Let_def split_def child_defs new_simps)

lemma heap_GitHub_new:
  "heap (snd (GitHub_new options s)) =
     heap s @
     GitHub \<lparr> mergify = (if nullish (options_mergify options) True
                          then Some (Suc (length (heap s))) else None),
              autoApprove = (if truthy (options_autoApproveOptions options)
                          then Some (Suc (length (heap s))
                             + (if nullish (options_mergify options) True then 1 else 0)
                             + (if nullish (options_pullRequestLint options) True then 1 else 0))
                          else None),
              workflowsEnabled = nullish (options_workflows options) True,
              projenTokenSecret = nullish (options_projenTokenSecret options)
                                   (str ''PROJEN_GITHUB_TOKEN'') \<rparr>
     # children options (length (heap s))"
  by (simp add: GitHub_new_def Let_def split_def child_defs new_simps children_def
      nth_append list_update_append)

lemma components_GitHub_new:
  assumes "well_formed s"
  shows "components (snd (GitHub_new options s)) =
     components s @
     [length (heap s) ..< Suc (length (heap s)) + length (children options (length (heap s)))]"
proof -
  have "project s < length (arrays s)" using assms by (simp add: well_formed_def)
  then show ?thesis
    by (simp add: components_def GitHub_new_def Let_def split_def child_defs new_simps
        children_def array_at_def upt_rec)
qed

lemma length_heap_GitHub_new:
  "length (heap (snd (GitHub_new options s))) =
     Suc (length (heap s)) + length (children options (length (heap s)))"
  by (simp add: heap_GitHub_new)

lemma arrays_length_GitHub_new:
  "length (arrays (snd (GitHub_new options s))) = length (arrays s)"
  by (simp add: GitHub_new_def Let_def split_def child_defs new_simps)

lemma well_formed_GitHub_new:
  assumes "well_formed s"
  shows "well_formed (snd (GitHub_new options s))"
  using assms components_GitHub_new [OF assms, of options]
  by (auto simp: well_formed_def project_GitHub_new arrays_length_GitHub_new
      length_heap_GitHub_new list_all_iff)

lemma obj_at_GitHub_new_old:
  "r < length (heap s) \<Longrightarrow> obj_at (snd (GitHub_new options s)) r = obj_at s r"
  by (simp add: obj_at_def heap_GitHub_new nth_append)

lemma kind_at_GitHub_new_old:
  "r < length (heap s) \<Longrightarrow> kind_at (snd (GitHub_new options s)) r = kind_at s r"
  by (simp add: kind_at_def obj_at_GitHub_new_old)

lemma kinds_fresh:
  assumes "heap s' = h @ xs"
  shows "map (kind_at s') [length h ..< length h + length xs] = map (\<lambda>ob. Some (kind_of ob)) xs"
  by (rule nth_equalityI) (simp_all add: kind_at_def obj_at_def assms nth_append)

subsection \<open>Adding a workflow\<close>

lemma addWorkflow_eq: "addWorkflow this name s = Component_new (GithubWorkflow this name) s"
  by (simp add: addWorkflow_def GithubWorkflow_new_def)

lemma isWorkflow_Component_new:
  "isWorkflow (snd (Component_new ob s)) r =
     (if r = length (heap s) then kind_of ob = KGithubWorkflow else isWorkflow s r)"
  by (simp add: isWorkflow_def kind_at_Component_new)

lemma workflow_name_Component_new:
  "r < length (heap s) \<Longrightarrow> workflow_name (snd (Component_new ob s)) r = workflow_name s r"
  by (simp add: workflow_name_def obj_at_Component_new)

lemma workflow_name_new:
  "workflow_name (snd (Component_new (GithubWorkflow g n) s)) (length (heap s)) = n"
  by (simp add: workflow_name_def obj_at_Component_new)

lemma filter_workflows_Component_new:
  assumes "well_formed s"
  shows "filter (isWorkflow (snd (Component_new ob s))) (components (snd (Component_new ob s))) =
     filter (isWorkflow s) (components s) @ (if kind_of ob = KGithubWorkflow then [length (heap s)] else [])"
proof -
  have "project s < length (arrays s)" using assms by (simp add: well_formed_def)
  moreover have "filter (isWorkflow (snd (Component_new ob s))) (components s) = filter (isWorkflow s) (components s)"
    using assms by (intro filter_cong) (auto simp: isWorkflow_Component_new dest: component_allocated)
  ultimately show ?thesis
    by (simp add: components_Component_new isWorkflow_Component_new)
qed

lemma names_Component_new:
  assumes "well_formed s"
  shows "map (workflow_name (snd (Component_new ob s))) (filter (isWorkflow s) (components s)) =
         map (workflow_name s) (filter (isWorkflow s) (components s))"
  using assms by (intro map_cong) (auto simp: workflow_name_Component_new dest: component_allocated)

lemma well_formed_addWorkflow: "well_formed s \<Longrightarrow> well_formed (snd (addWorkflow this name s))"
  by (simp add: addWorkflow_eq well_formed_Component_new)

lemma filter_workflows_addWorkflow:
  "well_formed s \<Longrightarrow>
   filter (isWorkflow (snd (addWorkflow this name s))) (components (snd (addWorkflow this name s))) =
     filter (isWorkflow s) (components s) @ [length (heap s)]"
  by (simp add: addWorkflow_eq filter_workflows_Component_new)

lemma registry_addWorkflow:
  assumes "well_formed s"
  shows "map (workflow_name (snd (addWorkflow this name s)))
           (filter (isWorkflow (snd (addWorkflow this name s)))
              (components (snd (addWorkflow this name s)))) =
         map (workflow_name s) (filter (isWorkflow s) (components s)) @ [name]"
  unfolding filter_workflows_addWorkflow [OF assms]
  using names_Component_new [OF assms, of "GithubWorkflow this name"]
  by (simp add: addWorkflow_eq workflow_name_new)

lemma workflow_names_addWorkflow:
  assumes "well_formed s"
  shows "workflow_names lc (snd (addWorkflow this name s)) =
     js_sort lc (map (workflow_name s) (filter (isWorkflow s) (components s)) @ [name])"
  by (simp only: workflow_names_eq registry_addWorkflow [OF assms])

subsection \<open>Lookup and counting\<close>

lemma find_filter_hd:
  "List.find P xs = (case filter P xs of [] \<Rightarrow> None | c # cs \<Rightarrow> Some c)"
  by (induction xs) auto

lemma find_append_none:
  "\<forall>x\<in>set xs. \<not> P x \<Longrightarrow> List.find P (xs @ ys) = List.find P ys"
  by (induction xs) auto

lemma registered_zero: "registered k s = 0 \<longleftrightarrow> (\<forall>c\<in>set (components s). kind_at s c \<noteq> Some k)"
  by (auto simp: registered_def filter_empty_conv)

lemma obj_at_GitHub_new_this:
  "obj_at (snd (GitHub_new options s)) (length (heap s)) =
     Some (GitHub \<lparr> mergify = (if nullish (options_mergify options) True
                          then Some (Suc (length (heap s))) else None),
              autoApprove = (if truthy (options_autoApproveOptions options)
                          then Some (Suc (length (heap s))
                             + (if nullish (options_mergify options) True then 1 else 0)
                             + (if nullish (options_pullRequestLint options) True then 1 else 0))
                          else None),
              workflowsEnabled = nullish (options_workflows options) True,
              projenTokenSecret = nullish (options_projenTokenSecret options)
                                   (str ''PROJEN_GITHUB_TOKEN'') \<rparr>)"
  by (simp add: obj_at_def heap_GitHub_new)

lemma isGitHub_GitHub_new_this: "isGitHub (snd (GitHub_new options s)) (length (heap s))"
  by (simp add: isGitHub_def kind_at_def obj_at_GitHub_new_this)

lemma github_at_GitHub_new:
  "github_at (snd (GitHub_new options s)) (fst (GitHub_new options s)) =
     Some \<lparr> mergify = (if nullish (options_mergify options) True
                          then Some (Suc (length (heap s))) else None),
              autoApprove = (if truthy (options_autoApproveOptions options)
                          then Some (Suc (length (heap s))
                             + (if nullish (options_mergify options) True then 1 else 0)
                             + (if nullish (options_pullRequestLint options) True then 1 else 0))
                          else None),
              workflowsEnabled = nullish (options_workflows options) True,
              projenTokenSecret = nullish (options_projenTokenSecret options)
                                   (str ''PROJEN_GITHUB_TOKEN'') \<rparr>"
  by (simp add: github_at_def fst_GitHub_new obj_at_GitHub_new_this)

lemma truthy_iff: "truthy x \<longleftrightarrow> x \<noteq> None"
  by (cases x) simp_all

lemma nullish_True_iff: "nullish x True \<longleftrightarrow> x \<noteq> Some False"
  by (cases x) auto

lemma constructed_GitHub_new:
  "constructed k (snd (GitHub_new options s)) =
     constructed k s + (if k = KGitHub then 1 else 0) +
     length (filter (\<lambda>ob. kind_of ob = k) (children options (length (heap s))))"
  by (simp add: constructed_def heap_GitHub_new)

lemma registered_GitHub_new:
  assumes "well_formed s"
  shows "registered k (snd (GitHub_new options s)) =
     registered k s + (if k = KGitHub then 1 else 0) +
     length (filter (\<lambda>ob. kind_of ob = k) (children options (length (heap s))))"
proof -
  let ?s' = "snd (GitHub_new options s)"
  let ?new = "[length (heap s) ..< Suc (length (heap s)) + length (children options (length (heap s)))]"
  obtain gf where hp: "heap ?s' = heap s @ (GitHub gf # children options (length (heap s)))"
    using heap_GitHub_new [of options s] by blast
  have old: "filter (\<lambda>r. kind_at ?s' r = Some k) (components s) =
             filter (\<lambda>r. kind_at s r = Some k) (components s)"
    using assms by (intro filter_cong) (auto simp: kind_at_GitHub_new_old dest: component_allocated)
  have "map (kind_at ?s') ?new = map (\<lambda>ob. Some (kind_of ob)) (GitHub gf # children options (length (heap s)))"
    using kinds_fresh [OF hp] by simp
  then have "length (filter (\<lambda>ko. ko = Some k) (map (kind_at ?s') ?new)) =
             length (filter (\<lambda>ko. ko = Some k) (map (\<lambda>ob. Some (kind_of ob)) (GitHub gf # children options (length (heap s)))))"
    by simp
  then have new: "length (filter (\<lambda>r. kind_at ?s' r = Some k) ?new) =
      (if k = KGitHub then 1 else 0) +
      length (filter (\<lambda>ob. kind_of ob = k) (children options (length (heap s))))"
    by (simp add: filter_map o_def del: upt_Suc)
  show ?thesis
    unfolding registered_def components_GitHub_new [OF assms]
    using old new by (simp del: upt_Suc)
qed

lemma count_children:
  "length (filter (\<lambda>ob. kind_of ob = KMergify) (children options g)) =
     (if options_mergify options \<noteq> Some False then 1 else 0)"
  "length (filter (\<lambda>ob. kind_of ob = KPullRequestLint) (children options g)) =
     (if options_pullRequestLint options \<noteq> Some False then 1 else 0)"
  "length (filter (\<lambda>ob. kind_of ob = KAutoApprove) (children options g)) =
     (if options_autoApproveOptions options \<noteq> None then 1 else 0)"
  "length (filter (\<lambda>ob. kind_of ob = KStale) (children options g)) =
     (if options_stale options \<noteq> Some False then 1 else 0)"
  by (simp_all add: children_def truthy_iff nullish_True_iff)

subsection \<open>Objects are never modified after construction\<close>


lemma obj_at_mergify_child:
  "options_mergify options \<noteq> Some False \<Longrightarrow>
   obj_at (snd (GitHub_new options s)) (Suc (length (heap s))) =
   Some (Mergify (length (heap s)) (options_mergifyOptions options))"
  by (auto simp: obj_at_def heap_GitHub_new children_def nth_append nullish_True_iff)

lemma heap_workflows: "heap (snd (workflows lc s)) = heap s"
  by (simp add: workflows_eq)

lemma heap_do_call:
  "\<exists>xs. heap (do_call lc c s) = heap s @ xs"
proof (cases c)
  case (New options)
  then show ?thesis by (simp add: heap_GitHub_new)
next
  case (AddWorkflow this name)
  then show ?thesis by (simp add: addWorkflow_def GithubWorkflow_new_def heap_Component_new)
next
  case (AddPullRequestTemplate this content)
  then show ?thesis
    by (simp add: addPullRequestTemplate_def PullRequestTemplate_new_def heap_Component_new)
next
  case (AddDependabot this options)
  then show ?thesis by (simp add: addDependabot_def Dependabot_new_def heap_Component_new)
next
  case Workflows
  then show ?thesis by (simp add: heap_workflows)
next
  case (TryFindWorkflow name)
  then show ?thesis by (simp add: tryFindWorkflow_eq heap_workflows)
next
  case Of
  then show ?thesis by (simp add: GitHub_of_eq)
qed

lemma heap_run: "\<exists>xs. heap (run lc cs s) = heap s @ xs"
proof (induction cs arbitrary: s)
  case Nil
  then show ?case by simp
next
  case (Cons c cs)
  obtain xs where "heap (do_call lc c s) = heap s @ xs"
    using heap_do_call by blast
  moreover obtain ys where "heap (run lc cs (do_call lc c s)) = heap (do_call lc c s) @ ys"
    using Cons.IH by blast
  ultimately show ?case by simp
qed

lemma obj_at_run: "r < length (heap s) \<Longrightarrow> obj_at (run lc cs s) r = obj_at s r"
  using heap_run [of lc cs s] by (auto simp: obj_at_def nth_append)

lemma github_at_run: "github_at s r = Some gf \<Longrightarrow> github_at (run lc cs s) r = Some gf"
proof -
  assume h: "github_at s r = Some gf"
  then have "r < length (heap s)"
    by (auto simp: github_at_def obj_at_def split: if_splits)
  then show ?thesis using h by (simp add: github_at_def obj_at_run)
qed

subsection \<open>Queries\<close>

lemma isWorkflow_heap: "heap s' = heap s \<Longrightarrow> isWorkflow s' = isWorkflow s"
  by (rule ext) (simp add: isWorkflow_def kind_at_def obj_at_def)

lemma set_workflows_list: "set (workflows_list lc s) = {c \<in> set (components s). isWorkflow s c}"
  by (simp add: workflows_list_eq set_js_sort)

lemma project_workflows: "project (snd (workflows lc s)) = project s"
  by (simp add: workflows_eq)

lemma state_do_query:
  assumes "well_formed s" and "is_query q"
  shows "well_formed (do_call lc q s) \<and> components (do_call lc q s) = components s \<and>
         heap (do_call lc q s) = heap s \<and> project (do_call lc q s) = project s"
proof -
  have p: "project s < length (arrays s)" using assms(1) by (simp add: well_formed_def)
  show ?thesis
    using assms p
    by (cases q)
      (simp_all add: well_formed_workflows components_workflows heap_workflows
        project_workflows tryFindWorkflow_eq GitHub_of_eq)
qed

lemma state_run_queries:
  "well_formed s \<Longrightarrow> list_all is_query qs \<Longrightarrow>
     components (run lc qs s) = components s \<and> heap (run lc qs s) = heap s \<and>
     project (run lc qs s) = project s"
proof (induction qs arbitrary: s)
  case Nil
  then show ?case by simp
next
  case (Cons q qs)
  then have q: "is_query q" and qs: "list_all is_query qs" by simp_all
  note step = state_do_query [OF Cons.prems(1) q, of lc]
  from step Cons.IH [of "do_call lc q s"] qs show ?case by simp
qed

subsection \<open>Duplicates in a sorted list\<close>





subsection \<open>The concrete projects\<close>

lemmas eval_defs = GitHub_new_def no_options_def new_project_def Component_new_def Array_push_def
  array_at_def Mergify_new_def PullRequestLint_new_def AutoApprove_new_def Stale_new_def
  assign_def Let_def split_def addWorkflow_def GithubWorkflow_new_def

lemma default_project_eq:
  "default_project =
     \<lparr> heap = [GitHub \<lparr> mergify = Some 1, autoApprove = None, workflowsEnabled = True,
                        projenTokenSecret = str ''PROJEN_GITHUB_TOKEN'' \<rparr>,
               Mergify 0 None, PullRequestLint 0 None, Stale 0 None],
       arrays = [[0, 1, 2, 3]], project = 0 \<rparr>"
  by (simp add: default_project_def eval_defs)

lemma well_formed_new_project: "well_formed new_project"
  by (simp add: well_formed_def new_project_def components_def array_at_def)

lemma well_formed_default_project: "well_formed default_project"
  unfolding default_project_def using well_formed_new_project by (rule well_formed_GitHub_new)

lemma no_workflows_default_project:
  "filter (isWorkflow default_project) (components default_project) = []"
  by (simp add: default_project_eq components_def array_at_def isWorkflow_def kind_at_def obj_at_def)

lemmas look_defs = components_def array_at_def isWorkflow_def isGitHub_def kind_at_def obj_at_def
  workflow_name_def github_at_def

lemma two_builds_eq:
  "two_builds =
     \<lparr> heap = [GitHub \<lparr> mergify = Some 1, autoApprove = None, workflowsEnabled = True,
                        projenTokenSecret = str ''PROJEN_GITHUB_TOKEN'' \<rparr>,
               Mergify 0 None, PullRequestLint 0 None, Stale 0 None,
               GithubWorkflow 0 (str ''build''), GithubWorkflow 0 (str ''build'')],
       arrays = [[0, 1, 2, 3, 4, 5]], project = 0 \<rparr>"
  by (simp add: two_builds_def default_project_eq addWorkflow_def GithubWorkflow_new_def
      Component_new_def Array_push_def array_at_def Let_def)


lemma well_formed_two_builds: "well_formed two_builds"
  by (simp add: two_builds_eq well_formed_def components_def array_at_def)

section \<open>The claims\<close>

text \<open>
  Claim C1. For every project state and every consistent locale comparison, the array that
  \<^verbatim>\<open>workflows\<close> returns holds exactly the workflow components registered in the project
  (each as often as it is registered), and its names ascend under the comparison, whatever
  the order of registration. In particular, when a project without workflows gets
  workflows named b, a and c in that order, and the comparison puts a before b and b
  before c, the names read a, b, c.
\<close>

theorem workflows_sorted_by_name:
  assumes "consistent_compare lc"
  shows "mset (workflows_list lc s) = mset (filter (isWorkflow s) (components s)) \<and>
         sorted_wrt (\<lambda>n1 n2. lc n1 n2 \<le> 0) (workflow_names lc s) \<and>
         (well_formed s \<and> filter (isWorkflow s) (components s) = [] \<and>
          lc (str ''a'') (str ''b'') < 0 \<and> lc (str ''b'') (str ''c'') < 0 \<longrightarrow>
            workflow_names lc
              (snd (addWorkflow g3 (str ''c'')
                (snd (addWorkflow g2 (str ''a'')
                  (snd (addWorkflow g1 (str ''b'') s)))))) =
            [str ''a'', str ''b'', str ''c''])"
proof (intro conjI impI)
  show "mset (workflows_list lc s) = mset (filter (isWorkflow s) (components s))"
    by (simp add: workflows_list_eq mset_js_sort)
  show "sorted_wrt (\<lambda>n1 n2. lc n1 n2 \<le> 0) (workflow_names lc s)"
    by (simp add: workflow_names_eq sorted_js_sort [OF assms])
next
  assume h: "well_formed s \<and> filter (isWorkflow s) (components s) = [] \<and>
          lc (str ''a'') (str ''b'') < 0 \<and> lc (str ''b'') (str ''c'') < 0"
  let ?s1 = "snd (addWorkflow g1 (str ''b'') s)"
  let ?s2 = "snd (addWorkflow g2 (str ''a'') ?s1)"
  let ?s3 = "snd (addWorkflow g3 (str ''c'') ?s2)"
  have w1: "well_formed ?s1" and w2: "well_formed ?s2"
    using h by (simp_all add: well_formed_addWorkflow)
  have "map (workflow_name ?s2) (filter (isWorkflow ?s2) (components ?s2)) = [str ''b'', str ''a'']"
    using h by (simp add: registry_addWorkflow w1)
  then have "workflow_names lc ?s3 = js_sort lc ([str ''b'', str ''a''] @ [str ''c''])"
    by (simp only: workflow_names_addWorkflow [OF w2])
  moreover have ab: "lc (str ''a'') (str ''b'') \<le> 0" and bc: "lc (str ''b'') (str ''c'') \<le> 0"
    using h by simp_all
  moreover have "lc (str ''a'') (str ''c'') \<le> 0"
    using assms ab bc by (rule consistent_trans)
  moreover have "0 < lc (str ''b'') (str ''a'')"
    using h assms unfolding consistent_compare_def by blast
  ultimately show "workflow_names lc ?s3 = [str ''a'', str ''b'', str ''c'']"
    by simp
qed

text \<open>
  The run on the default project, with the comparison by code units: it satisfies every
  hypothesis, and the three workflows come back as a, b, c.
\<close>

theorem workflows_sorted_by_name_witness:
  "consistent_compare compare_units \<and> well_formed default_project \<and>
   filter (isWorkflow default_project) (components default_project) = [] \<and>
   compare_units (str ''a'') (str ''b'') < 0 \<and> compare_units (str ''b'') (str ''c'') < 0 \<and>
   workflow_names compare_units
     (snd (addWorkflow 0 (str ''c'')
       (snd (addWorkflow 0 (str ''a'')
         (snd (addWorkflow 0 (str ''b'') default_project)))))) =
     [str ''a'', str ''b'', str ''c'']"
  using workflows_sorted_by_name [OF consistent_compare_units, of default_project 0 0 0]
    consistent_compare_units well_formed_default_project no_workflows_default_project
  by (simp add: str_def)

text \<open>
  Claim C2. \<^verbatim>\<open>GitHub.of(project)\<close> returns the first entry of the collection, in
  insertion order, that is a \<^verbatim>\<open>GitHub\<close> object, or \<^verbatim>\<open>undefined\<close> when there is none,
  and it leaves the state as it was. On a project in which no \<^verbatim>\<open>GitHub\<close> object is
  registered it returns \<^verbatim>\<open>undefined\<close>; after the constructor has run on that project it
  returns the very reference the constructor returned.
\<close>

theorem GitHub_of_first_match:
  "fst (GitHub_of s) = (case filter (isGitHub s) (components s) of [] \<Rightarrow> None | c # cs \<Rightarrow> Some c) \<and>
   snd (GitHub_of s) = s \<and>
   (well_formed s \<and> registered KGitHub s = 0 \<longrightarrow>
      fst (GitHub_of s) = None \<and>
      fst (GitHub_of (snd (GitHub_new options s))) = Some (fst (GitHub_new options s)) \<and>
      isGitHub (snd (GitHub_new options s)) (fst (GitHub_new options s)))"
proof (intro conjI impI)
  show "fst (GitHub_of s) = (case filter (isGitHub s) (components s) of [] \<Rightarrow> None | c # cs \<Rightarrow> Some c)"
    by (simp add: GitHub_of_eq find_filter_hd)
  show "snd (GitHub_of s) = s"
    by (simp add: GitHub_of_eq)
next
  assume h: "well_formed s \<and> registered KGitHub s = 0"
  then have wf: "well_formed s" and none: "\<forall>c\<in>set (components s). \<not> isGitHub s c"
    by (simp_all add: registered_zero isGitHub_def)
  show "fst (GitHub_of s) = None"
    using none by (simp add: GitHub_of_eq find_None_iff)
  let ?s' = "snd (GitHub_new options s)"
  have "\<forall>c\<in>set (components s). \<not> isGitHub ?s' c"
    using none wf by (auto simp: isGitHub_def kind_at_GitHub_new_old dest: component_allocated)
  then have "List.find (isGitHub ?s') (components ?s') =
      List.find (isGitHub ?s') [length (heap s) ..< Suc (length (heap s)) + length (children options (length (heap s)))]"
    unfolding components_GitHub_new [OF wf] by (rule find_append_none)
  also have "\<dots> = Some (length (heap s))"
    by (simp add: upt_rec [of "length (heap s)"] isGitHub_GitHub_new_this)
  finally show "fst (GitHub_of ?s') = Some (fst (GitHub_new options s))"
    by (simp add: GitHub_of_eq fst_GitHub_new)
  show "isGitHub ?s' (fst (GitHub_new options s))"
    by (simp add: fst_GitHub_new isGitHub_GitHub_new_this)
qed

text \<open>On a new project: nothing is found; after construction, the object at address 0 is.\<close>

theorem GitHub_of_first_match_witness:
  "well_formed new_project \<and> registered KGitHub new_project = 0 \<and>
   fst (GitHub_of new_project) = None \<and>
   fst (GitHub_new no_options new_project) = 0 \<and>
   fst (GitHub_of (snd (GitHub_new no_options new_project))) = Some 0"
  using GitHub_of_first_match [of new_project no_options] well_formed_new_project
  by (simp add: registered_def new_project_def components_def array_at_def fst_GitHub_new)



text \<open>
  Claim C4. \<^verbatim>\<open>tryFindWorkflow(name)\<close> returns a workflow exactly when it is the first
  entry of the sorted array whose name equals \<^verbatim>\<open>name\<close> code unit by code unit, and it
  returns \<^verbatim>\<open>undefined\<close> exactly when no registered workflow has that name. It is a
  total function: there is no input on which it fails.
\<close>

theorem tryFindWorkflow_first_match:
  "(\<forall>w. fst (tryFindWorkflow lc name s) = Some w \<longleftrightarrow>
      (\<exists>i<length (workflows_list lc s).
         workflows_list lc s ! i = w \<and> workflow_name s w = name \<and>
         (\<forall>j<i. workflow_name s (workflows_list lc s ! j) \<noteq> name))) \<and>
   (fst (tryFindWorkflow lc name s) = None \<longleftrightarrow>
      \<not> (\<exists>w\<in>set (components s). isWorkflow s w \<and> workflow_name s w = name))"
proof (intro conjI allI)
  fix w
  show "fst (tryFindWorkflow lc name s) = Some w \<longleftrightarrow>
      (\<exists>i<length (workflows_list lc s).
         workflows_list lc s ! i = w \<and> workflow_name s w = name \<and>
         (\<forall>j<i. workflow_name s (workflows_list lc s ! j) \<noteq> name))"
    by (auto simp: tryFindWorkflow_eq find_Some_iff)
next
  show "fst (tryFindWorkflow lc name s) = None \<longleftrightarrow>
      \<not> (\<exists>w\<in>set (components s). isWorkflow s w \<and> workflow_name s w = name)"
    by (auto simp: tryFindWorkflow_eq find_None_iff set_workflows_list)
qed

text \<open>
  With two workflows named \<^verbatim>\<open>build\<close>: the first of them is found, and neither
  \<^verbatim>\<open>Build\<close> nor \<^verbatim>\<open>release\<close> is.
\<close>

theorem tryFindWorkflow_first_match_witness:
  "fst (tryFindWorkflow compare_units (str ''build'') two_builds) = Some 4 \<and>
   fst (tryFindWorkflow compare_units (str ''Build'') two_builds) = None \<and>
   fst (tryFindWorkflow compare_units (str ''release'') two_builds) = None"
  using tryFindWorkflow_first_match [of compare_units "str ''build''" two_builds]
        tryFindWorkflow_first_match [of compare_units "str ''Build''" two_builds]
  by (simp add: tryFindWorkflow_eq workflows_list_eq two_builds_eq look_defs str_def)

text \<open>
  Claim C5. For every combination of options, the constructor builds and registers exactly
  one child of a kind when its switch is enabled (\<^verbatim>\<open>mergify\<close>, \<^verbatim>\<open>pullRequestLint\<close> and
  \<^verbatim>\<open>stale\<close> are enabled unless they are \<^verbatim>\<open>false\<close>; auto-approval is enabled when
  \<^verbatim>\<open>autoApproveOptions\<close> is supplied) and none of that kind when it is disabled.
\<close>

theorem one_child_per_enabled_switch:
  assumes "well_formed s"
  shows "let s' = snd (GitHub_new options s) in
    constructed KMergify s' = constructed KMergify s + (if options_mergify options \<noteq> Some False then 1 else 0) \<and>
    registered KMergify s' = registered KMergify s + (if options_mergify options \<noteq> Some False then 1 else 0) \<and>
    constructed KPullRequestLint s' = constructed KPullRequestLint s + (if options_pullRequestLint options \<noteq> Some False then 1 else 0) \<and>
    registered KPullRequestLint s' = registered KPullRequestLint s + (if options_pullRequestLint options \<noteq> Some False then 1 else 0) \<and>
    constructed KStale s' = constructed KStale s + (if options_stale options \<noteq> Some False then 1 else 0) \<and>
    registered KStale s' = registered KStale s + (if options_stale options \<noteq> Some False then 1 else 0) \<and>
    constructed KAutoApprove s' = constructed KAutoApprove s + (if options_autoApproveOptions options \<noteq> None then 1 else 0) \<and>
    registered KAutoApprove s' = registered KAutoApprove s + (if options_autoApproveOptions options \<noteq> None then 1 else 0)"
  unfolding Let_def
  by (simp only: constructed_GitHub_new registered_GitHub_new [OF assms] count_children) simp

text \<open>
  With \<^verbatim>\<open>mergify: false\<close> and \<^verbatim>\<open>autoApproveOptions: {}\<close> on a new project: no
  \<^verbatim>\<open>Mergify\<close> child, and one child of each of the other three kinds.
\<close>

theorem one_child_per_enabled_switch_witness:
  "well_formed new_project \<and>
   registered KMergify (snd (GitHub_new (no_options\<lparr>options_mergify := Some False,
       options_autoApproveOptions := Some (Obj [])\<rparr>) new_project)) = 0 \<and>
   registered KAutoApprove (snd (GitHub_new (no_options\<lparr>options_mergify := Some False,
       options_autoApproveOptions := Some (Obj [])\<rparr>) new_project)) = 1 \<and>
   registered KPullRequestLint (snd (GitHub_new (no_options\<lparr>options_mergify := Some False,
       options_autoApproveOptions := Some (Obj [])\<rparr>) new_project)) = 1 \<and>
   registered KStale (snd (GitHub_new (no_options\<lparr>options_mergify := Some False,
       options_autoApproveOptions := Some (Obj [])\<rparr>) new_project)) = 1"
  using one_child_per_enabled_switch [OF well_formed_new_project,
          of "no_options\<lparr>options_mergify := Some False, options_autoApproveOptions := Some (Obj [])\<rparr>"]
        well_formed_new_project
  by (simp add: Let_def no_options_def registered_def new_project_def components_def array_at_def)

text \<open>
  Claim C6. When \<^verbatim>\<open>mergify\<close> is true or omitted, the constructor builds one \<^verbatim>\<open>Mergify\<close>
  child with \<^verbatim>\<open>mergifyOptions\<close> and the field \<^verbatim>\<open>mergify\<close> refers to it. When
  \<^verbatim>\<open>mergify\<close> is false, the field is \<^verbatim>\<open>undefined\<close> and no \<^verbatim>\<open>Mergify\<close> child is
  built, whatever \<^verbatim>\<open>mergifyOptions\<close> is.
\<close>

theorem mergify_field_follows_switch:
  "let (this, s') = GitHub_new options s in
   \<exists>gf. github_at s' this = Some gf \<and>
     (options_mergify options \<noteq> Some False \<longrightarrow>
        (\<exists>m. mergify gf = Some m \<and> length (heap s) \<le> m \<and>
           obj_at s' m = Some (Mergify this (options_mergifyOptions options))) \<and>
        constructed KMergify s' = constructed KMergify s + 1) \<and>
     (options_mergify options = Some False \<longrightarrow>
        mergify gf = None \<and> constructed KMergify s' = constructed KMergify s)"
proof -
  let ?s' = "snd (GitHub_new options s)"
  let ?g = "fst (GitHub_new options s)"
  obtain gf where gf: "github_at ?s' ?g = Some gf"
    and m: "mergify gf = (if nullish (options_mergify options) True
                          then Some (Suc (length (heap s))) else None)"
    by (simp add: github_at_GitHub_new)
  have 1: "options_mergify options \<noteq> Some False \<longrightarrow>
        (\<exists>m. mergify gf = Some m \<and> length (heap s) \<le> m \<and>
           obj_at ?s' m = Some (Mergify ?g (options_mergifyOptions options))) \<and>
        constructed KMergify ?s' = constructed KMergify s + 1"
    using obj_at_mergify_child [of options s]
    by (simp add: m nullish_True_iff fst_GitHub_new constructed_GitHub_new count_children)
  have 2: "options_mergify options = Some False \<longrightarrow>
        mergify gf = None \<and> constructed KMergify ?s' = constructed KMergify s"
    by (simp add: m constructed_GitHub_new count_children)
  from gf 1 2 show ?thesis
    by (simp add: split_def)
qed

text \<open>
  On a new project: with the default options the field refers to the \<^verbatim>\<open>Mergify\<close>
  child at address 1; with \<^verbatim>\<open>mergify: false\<close> and some \<^verbatim>\<open>mergifyOptions\<close> the field is
  \<^verbatim>\<open>undefined\<close> and there is no \<^verbatim>\<open>Mergify\<close> object.
\<close>

theorem mergify_field_follows_switch_witness:
  "map_option mergify (github_at (snd (GitHub_new no_options new_project)) 0) = Some (Some 1) \<and>
   obj_at (snd (GitHub_new no_options new_project)) 1 = Some (Mergify 0 None) \<and>
   map_option mergify
     (github_at (snd (GitHub_new (no_options\<lparr>options_mergify := Some False,
        options_mergifyOptions := Some (Obj [(''autoMerge'', ''true'')])\<rparr>) new_project)) 0)
     = Some None \<and>
   constructed KMergify (snd (GitHub_new (no_options\<lparr>options_mergify := Some False,
        options_mergifyOptions := Some (Obj [(''autoMerge'', ''true'')])\<rparr>) new_project)) = 0"
  using mergify_field_follows_switch [of no_options new_project]
        mergify_field_follows_switch [of "no_options\<lparr>options_mergify := Some False,
          options_mergifyOptions := Some (Obj [(''autoMerge'', ''true'')])\<rparr>" new_project]
  by (simp add: eval_defs look_defs constructed_def)

text \<open>
  Claim C7. After construction \<^verbatim>\<open>workflowsEnabled\<close> is \<^verbatim>\<open>options.workflows\<close> when that
  is supplied and true otherwise, and \<^verbatim>\<open>projenTokenSecret\<close> is
  \<^verbatim>\<open>options.projenTokenSecret\<close> when that is supplied and \<^verbatim>\<open>PROJEN_GITHUB_TOKEN\<close>
  otherwise. No sequence of calls of the public interface changes either field.
\<close>

theorem fields_initialised_and_immutable:
  "let (this, s') = GitHub_new options s in
   \<exists>gf. github_at s' this = Some gf \<and>
     workflowsEnabled gf = (case options_workflows options of None \<Rightarrow> True | Some b \<Rightarrow> b) \<and>
     projenTokenSecret gf =
       (case options_projenTokenSecret options of
          None \<Rightarrow> str ''PROJEN_GITHUB_TOKEN'' | Some secret \<Rightarrow> secret) \<and>
     (\<forall>lc calls.
        map_option workflowsEnabled (github_at (run lc calls s') this) = Some (workflowsEnabled gf) \<and>
        map_option projenTokenSecret (github_at (run lc calls s') this) = Some (projenTokenSecret gf))"
proof -
  let ?s' = "snd (GitHub_new options s)"
  let ?g = "fst (GitHub_new options s)"
  obtain gf where gf: "github_at ?s' ?g = Some gf"
    and w: "workflowsEnabled gf = nullish (options_workflows options) True"
    and p: "projenTokenSecret gf = nullish (options_projenTokenSecret options) (str ''PROJEN_GITHUB_TOKEN'')"
    by (simp add: github_at_GitHub_new)
  have 1: "workflowsEnabled gf = (case options_workflows options of None \<Rightarrow> True | Some b \<Rightarrow> b)"
    unfolding w by (cases "options_workflows options") simp_all
  have 2: "projenTokenSecret gf =
       (case options_projenTokenSecret options of
          None \<Rightarrow> str ''PROJEN_GITHUB_TOKEN'' | Some secret \<Rightarrow> secret)"
    unfolding p by (cases "options_projenTokenSecret options") simp_all
  have 3: "github_at (run lc calls ?s') ?g = Some gf" for lc calls
    using gf by (rule github_at_run)
  from gf 1 2 3 show ?thesis
    by (simp add: split_def)
qed

text \<open>
  With \<^verbatim>\<open>workflows: false\<close> and a secret name of the caller's, both survive three further
  calls; with the default options the fields take their defaults.
\<close>

theorem fields_initialised_and_immutable_witness:
  "(\<exists>gf. github_at
       (run compare_units [AddWorkflow 0 (str ''build''), Workflows, New no_options]
          (snd (GitHub_new (no_options\<lparr>options_workflows := Some False,
             options_projenTokenSecret := Some (str ''MY_TOKEN'')\<rparr>) new_project))) 0 = Some gf \<and>
      workflowsEnabled gf = False \<and> projenTokenSecret gf = str ''MY_TOKEN'') \<and>
   (\<exists>gf. github_at (snd (GitHub_new no_options new_project)) 0 = Some gf \<and>
      workflowsEnabled gf = True \<and> projenTokenSecret gf = str ''PROJEN_GITHUB_TOKEN'')"
proof -
  let ?o = "no_options\<lparr>options_workflows := Some False,
             options_projenTokenSecret := Some (str ''MY_TOKEN'')\<rparr>"
  let ?s = "snd (GitHub_new ?o new_project)"
  let ?d = "snd (GitHub_new no_options new_project)"
  let ?calls = "[AddWorkflow 0 (str ''build''), Workflows, New no_options]"
  have f: "fst (GitHub_new ?o new_project) = 0" "fst (GitHub_new no_options new_project) = 0"
    by (simp_all add: fst_GitHub_new new_project_def)
  have "\<exists>gf. github_at ?s 0 = Some gf \<and>
     workflowsEnabled gf = (case options_workflows ?o of None \<Rightarrow> True | Some b \<Rightarrow> b) \<and>
     projenTokenSecret gf =
       (case options_projenTokenSecret ?o of
          None \<Rightarrow> str ''PROJEN_GITHUB_TOKEN'' | Some secret \<Rightarrow> secret) \<and>
     (\<forall>lc calls.
        map_option workflowsEnabled (github_at (run lc calls ?s) 0) = Some (workflowsEnabled gf) \<and>
        map_option projenTokenSecret (github_at (run lc calls ?s) 0) = Some (projenTokenSecret gf))"
    using fields_initialised_and_immutable [of ?o new_project]
    by (simp only: Let_def split_def f)
  then have 1: "\<exists>gf. github_at (run compare_units ?calls ?s) 0 = Some gf \<and>
      workflowsEnabled gf = False \<and> projenTokenSecret gf = str ''MY_TOKEN''"
  proof (elim exE conjE)
    fix gf
    assume w: "workflowsEnabled gf = (case options_workflows ?o of None \<Rightarrow> True | Some b \<Rightarrow> b)"
      and p: "projenTokenSecret gf =
       (case options_projenTokenSecret ?o of
          None \<Rightarrow> str ''PROJEN_GITHUB_TOKEN'' | Some secret \<Rightarrow> secret)"
      and all: "\<forall>lc calls.
        map_option workflowsEnabled (github_at (run lc calls ?s) 0) = Some (workflowsEnabled gf) \<and>
        map_option projenTokenSecret (github_at (run lc calls ?s) 0) = Some (projenTokenSecret gf)"
    have w': "workflowsEnabled gf = False" and p': "projenTokenSecret gf = str ''MY_TOKEN''"
      using w p by simp_all
    note inst = all [rule_format, of compare_units ?calls]
    have "map_option workflowsEnabled (github_at (run compare_units ?calls ?s) 0) = Some False"
      using inst [THEN conjunct1] unfolding w' .
    moreover
    have "map_option projenTokenSecret (github_at (run compare_units ?calls ?s) 0) = Some (str ''MY_TOKEN'')"
      using inst [THEN conjunct2] unfolding p' .
    ultimately show ?thesis
      by (cases "github_at (run compare_units ?calls ?s) 0") (simp_all del: run.simps)
  qed
  have "\<exists>gf. github_at ?d 0 = Some gf \<and>
     workflowsEnabled gf = (case options_workflows no_options of None \<Rightarrow> True | Some b \<Rightarrow> b) \<and>
     projenTokenSecret gf =
       (case options_projenTokenSecret no_options of
          None \<Rightarrow> str ''PROJEN_GITHUB_TOKEN'' | Some secret \<Rightarrow> secret) \<and>
     (\<forall>lc calls.
        map_option workflowsEnabled (github_at (run lc calls ?d) 0) = Some (workflowsEnabled gf) \<and>
        map_option projenTokenSecret (github_at (run lc calls ?d) 0) = Some (projenTokenSecret gf))"
    using fields_initialised_and_immutable [of no_options new_project]
    by (simp only: Let_def split_def f)
  then have 2: "\<exists>gf. github_at ?d 0 = Some gf \<and>
      workflowsEnabled gf = True \<and> projenTokenSecret gf = str ''PROJEN_GITHUB_TOKEN''"
  proof (elim exE conjE)
    fix gf
    assume "github_at ?d 0 = Some gf"
      and "workflowsEnabled gf = (case options_workflows no_options of None \<Rightarrow> True | Some b \<Rightarrow> b)"
      and "projenTokenSecret gf =
       (case options_projenTokenSecret no_options of
          None \<Rightarrow> str ''PROJEN_GITHUB_TOKEN'' | Some secret \<Rightarrow> secret)"
    then show ?thesis by (simp add: no_options_def)
  qed
  from 1 2 show ?thesis by (rule conjI)
qed




text \<open>
  Claim C9. \<^verbatim>\<open>workflows\<close> is computed from the collection as it is at the time of the
  read: after a read, a call of \<^verbatim>\<open>addWorkflow\<close> and another read, the second array holds
  the new workflow, which the first did not hold, together with everything the first
  held, and it agrees with the workflows registered at that time.
\<close>

theorem workflows_read_after_addWorkflow:
  assumes "well_formed s"
  shows "let s1 = snd (workflows lc s); (w, s2) = addWorkflow this name s1 in
     w \<in> set (workflows_list lc s2) \<and> w \<notin> set (workflows_list lc s) \<and>
     workflow_name s2 w = name \<and>
     mset (workflows_list lc s2) = add_mset w (mset (workflows_list lc s)) \<and>
     set (workflows_list lc s2) = {c \<in> set (components s2). isWorkflow s2 c}"
proof -
  let ?s1 = "snd (workflows lc s)"
  let ?s2 = "snd (addWorkflow this name ?s1)"
  let ?w = "fst (addWorkflow this name ?s1)"
  have wf1: "well_formed ?s1" using assms by (rule well_formed_workflows)
  have h1: "heap ?s1 = heap s" by (rule heap_workflows)
  have c1: "components ?s1 = components s"
    using assms by (simp add: components_workflows well_formed_def)
  have w: "?w = length (heap s)"
    by (simp add: addWorkflow_eq fst_Component_new h1)
  have f: "filter (isWorkflow ?s2) (components ?s2) = filter (isWorkflow s) (components s) @ [?w]"
    using filter_workflows_addWorkflow [OF wf1, of this name]
    by (simp add: w h1 c1 isWorkflow_heap [OF h1])
  have fresh: "?w \<notin> set (components s)"
    using assms component_allocated [OF assms, of ?w] by (auto simp: w)
  have 1: "mset (workflows_list lc ?s2) = add_mset ?w (mset (workflows_list lc s))"
    by (simp add: workflows_list_eq mset_js_sort f)
  have 2: "?w \<in> set (workflows_list lc ?s2)"
    by (simp add: workflows_list_eq set_js_sort f flip: set_filter)
  have 3: "?w \<notin> set (workflows_list lc s)"
    using fresh by (simp add: set_workflows_list)
  have 4: "workflow_name ?s2 ?w = name"
    by (simp add: addWorkflow_eq fst_Component_new workflow_name_new)
  from 1 2 3 4 show ?thesis
    by (simp add: Let_def split_def set_workflows_list)
qed

text \<open>
  On the default project: the first read is empty, and the read after adding a workflow
  holds the new object, at address 4.
\<close>

theorem workflows_read_after_addWorkflow_witness:
  "well_formed default_project \<and>
   workflows_list compare_units default_project = [] \<and>
   fst (addWorkflow 0 (str ''build'') (snd (workflows compare_units default_project))) = 4 \<and>
   workflows_list compare_units
     (snd (addWorkflow 0 (str ''build'') (snd (workflows compare_units default_project)))) = [4]"
  using workflows_read_after_addWorkflow
          [OF well_formed_default_project, of compare_units 0 "str ''build''"]
        well_formed_default_project
  by (simp add: workflows_list_eq workflows_eq default_project_eq addWorkflow_def
      GithubWorkflow_new_def Component_new_def Array_push_def Let_def look_defs)

text \<open>
  Claim C10. Reading \<^verbatim>\<open>workflows\<close>, calling \<^verbatim>\<open>tryFindWorkflow\<close> and calling
  \<^verbatim>\<open>GitHub.of\<close> leave the project's collection and every object as they were. The
  array that \<^verbatim>\<open>workflows\<close> sorts is a newly allocated one, not the collection, and every
  array that existed before keeps its contents. The same holds after any sequence of
  queries.
\<close>

theorem queries_leave_components_unchanged:
  assumes "well_formed s"
  shows "components (snd (workflows lc s)) = components s \<and>
         heap (snd (workflows lc s)) = heap s \<and>
         fst (workflows lc s) \<noteq> project s \<and>
         (\<forall>a<length (arrays s). array_at (snd (workflows lc s)) a = array_at s a) \<and>
         components (snd (tryFindWorkflow lc name s)) = components s \<and>
         heap (snd (tryFindWorkflow lc name s)) = heap s \<and>
         snd (GitHub_of s) = s \<and>
         (\<forall>qs. list_all is_query qs \<longrightarrow>
            components (run lc qs s) = components s \<and> heap (run lc qs s) = heap s)"
proof -
  have p: "project s < length (arrays s)" using assms by (simp add: well_formed_def)
  have "\<forall>a<length (arrays s). array_at (snd (workflows lc s)) a = array_at s a"
    by (simp add: workflows_eq array_at_def nth_append)
  moreover have "fst (workflows lc s) \<noteq> project s"
    using p by (simp add: workflows_eq)
  ultimately show ?thesis
    using p state_run_queries [OF assms, of _ lc]
    by (simp add: components_workflows heap_workflows tryFindWorkflow_eq GitHub_of_eq)
qed

text \<open>
  Four queries on the project with two workflows: the collection still lists the six
  components in insertion order.
\<close>

theorem queries_leave_components_unchanged_witness:
  "well_formed two_builds \<and>
   list_all is_query [Workflows, TryFindWorkflow (str ''build''), Of, Workflows] \<and>
   components (run compare_units [Workflows, TryFindWorkflow (str ''build''), Of, Workflows]
     two_builds) = [0, 1, 2, 3, 4, 5] \<and>
   fst (workflows compare_units two_builds) \<noteq> project two_builds"
proof -
  let ?qs = "[Workflows, TryFindWorkflow (str ''build''), Of, Workflows]"
  note t = queries_leave_components_unchanged
             [OF well_formed_two_builds, of compare_units "str ''build''"]
  have q: "list_all is_query ?qs" by simp
  from t have "\<forall>qs. list_all is_query qs \<longrightarrow>
      components (run compare_units qs two_builds) = components two_builds \<and>
      heap (run compare_units qs two_builds) = heap two_builds"
    by blast
  with q have "components (run compare_units ?qs two_builds) = components two_builds"
    by blast
  moreover have "components two_builds = [0, 1, 2, 3, 4, 5]"
    by (simp add: two_builds_eq components_def array_at_def)
  moreover from t have "fst (workflows compare_units two_builds) \<noteq> project two_builds"
    by blast
  ultimately show ?thesis
    using q well_formed_two_builds by simp
qed

end
